theory Spec2Isabelle
  imports Complex_Main
begin

section \<open>Data model\<close>

text \<open>
  The three collections of the invoice-financing backend (users, bills, bids) are
  lists of documents; every document carries its own \<open>_id\<close>. JavaScript numbers are
  modelled as exact rationals (rounding of doubles is not modelled), dates as
  integer milliseconds, object ids as naturals. Fields that no bid/bill lifecycle
  operation reads or writes (names, e-mail, bill number, title, description, the
  createdAt/updatedAt stamps) are left out of the records.
\<close>

type_synonym oid = nat
type_synonym date = int

datatype role = Customer | Organization | Financer

datatype bill_status = Draft | Sent | Paid | Overdue | Financed

datatype bid_status = Pending | Accepted | Rejected | Expired

text \<open>
  The controllers report failures as \<open>AppError(message, code)\<close>. The constructors
  below name them after the error taxonomy of the specification:
  \<^item> \<open>Forbidden\<close>: every 403 (role or ownership mismatch);
  \<^item> \<open>NotFound\<close>: every 404;
  \<^item> \<open>InvalidState\<close>: the 400s "Bill is not available for financing",
    "Cannot bid on overdue bills", "Only pending bids can be updated",
    "Bid is no longer available", "Only pending bids can be cancelled",
    "Bill has already been sent", "Bill has already been paid",
    "Bill cannot be paid in current status";
  \<^item> \<open>AlreadyFinanced\<close>: "Bill has already been financed";
  \<^item> \<open>Expired\<close>: "Bid has expired" (written \<open>error.Expired\<close>, to tell it from the bid
    status of the same name);
  \<^item> \<open>DuplicateBid\<close>: "You have already placed a bid on this bill";
  \<^item> \<open>InsufficientFunds\<close>: the two "Insufficient funds ..." messages;
  \<^item> \<open>ValidationError\<close>: a schema validator rejecting a document, and
    "Amount must be positive";
  \<^item> \<open>InternalError\<close>: a TypeError thrown by dereferencing the \<open>null\<close> that a
    \<open>findById\<close> returned, forwarded by \<open>catchAsync\<close>;
  \<^item> \<open>Unauthenticated\<close>: the request never reached the controller (see \<open>reqUser\<close>).
\<close>

datatype error =
    Forbidden | NotFound | InvalidState | AlreadyFinanced | Expired
  | DuplicateBid | InsufficientFunds | ValidationError | InternalError
  | Unauthenticated

record user =
  user_id :: oid
  role :: role
  active :: bool
  availableFunds :: rat
  totalBillsCreated :: rat
  totalBillsSent :: rat
  totalRevenue :: rat
  totalBillsReceived :: rat
  totalBillsPaid :: rat
  totalAmountPaid :: rat
  totalBidsPlaced :: rat
  totalBidsWon :: rat
  totalInvestmentAmount :: rat
  totalReturns :: rat

record bill =
  bill_id :: oid
  amount :: rat
  dueDate :: date
  status :: bill_status
  isActive :: bool
  organization :: oid
  customer :: oid
  currentOwner :: oid
  isInMarketplace :: bool
  financingPercentage :: "rat option"
  financedAmount :: rat
  financer :: "oid option"
  sentAt :: "date option"
  paidAt :: "date option"
  financedAt :: "date option"

record bid =
  bid_id :: oid
  bid_bill :: oid
  bid_financer :: oid
  bid_financingPercentage :: rat
  bidAmount :: rat
  bid_status :: bid_status
  expiresAt :: date
  acceptedAt :: "date option"
  interest :: rat
  terms :: "string option"

record db =
  bills :: "bill list"
  bids :: "bid list"
  users :: "user list"

type_synonym response = "(error + unit) \<times> db"

section \<open>Persistence layer\<close>

definition findBill :: "oid \<Rightarrow> db \<Rightarrow> bill option" where
  "findBill i s = find (\<lambda>b. bill_id b = i) (bills s)"

definition findBid :: "oid \<Rightarrow> db \<Rightarrow> bid option" where
  "findBid i s = find (\<lambda>b. bid_id b = i) (bids s)"

text \<open>\<open>userSchema.pre(/^find/)\<close> hides every user whose \<open>active\<close> flag is false.\<close>

definition findUser :: "oid \<Rightarrow> db \<Rightarrow> user option" where
  "findUser i s = find (\<lambda>u. user_id u = i \<and> active u) (users s)"

definition saveBill :: "bill \<Rightarrow> db \<Rightarrow> db" where
  "saveBill d s = s\<lparr>bills := map (\<lambda>x. if bill_id x = bill_id d then d else x) (bills s)\<rparr>"

definition saveBid :: "bid \<Rightarrow> db \<Rightarrow> db" where
  "saveBid d s = s\<lparr>bids := map (\<lambda>x. if bid_id x = bid_id d then d else x) (bids s)\<rparr>"

definition saveUser :: "user \<Rightarrow> db \<Rightarrow> db" where
  "saveUser d s = s\<lparr>users := map (\<lambda>x. if user_id x = user_id d then d else x) (users s)\<rparr>"

text \<open>
  Modelled from the spec: the authentication middleware that fills \<open>req.user\<close> is not
  part of the sources; the actor context is "an authenticated identity with id and
  role". A request whose actor is not an active user is turned away before the
  controller runs, with no effect on the store.
\<close>

definition reqUser :: "oid \<Rightarrow> db \<Rightarrow> user option" where
  "reqUser actor s = findUser actor s"

datatype stat_type =
    BillCreated | BillSent | RevenueEarned | BillReceived | BillPaid
  | AmountPaid | BidPlaced | BidWon | Invested | ReturnsEarned

fun updateStats :: "stat_type \<Rightarrow> rat \<Rightarrow> user \<Rightarrow> user" where
  "updateStats BillCreated v u = u\<lparr>totalBillsCreated := totalBillsCreated u + v\<rparr>"
| "updateStats BillSent v u = u\<lparr>totalBillsSent := totalBillsSent u + v\<rparr>"
| "updateStats RevenueEarned v u = u\<lparr>totalRevenue := totalRevenue u + v\<rparr>"
| "updateStats BillReceived v u = u\<lparr>totalBillsReceived := totalBillsReceived u + v\<rparr>"
| "updateStats BillPaid v u = u\<lparr>totalBillsPaid := totalBillsPaid u + v\<rparr>"
| "updateStats AmountPaid v u = u\<lparr>totalAmountPaid := totalAmountPaid u + v\<rparr>"
| "updateStats BidPlaced v u = u\<lparr>totalBidsPlaced := totalBidsPlaced u + v\<rparr>"
| "updateStats BidWon v u = u\<lparr>totalBidsWon := totalBidsWon u + v\<rparr>"
| "updateStats Invested v u = u\<lparr>totalInvestmentAmount := totalInvestmentAmount u + v\<rparr>"
| "updateStats ReturnsEarned v u = u\<lparr>totalReturns := totalReturns u + v\<rparr>"

subsection \<open>Schema middleware\<close>

text \<open>
  \<open>billSchema.pre('save')\<close>: the second argument is the status the document was
  loaded with, which decides \<open>isModified('status')\<close> after the overdue rewrite.
\<close>

definition billPreSave :: "date \<Rightarrow> bill_status \<Rightarrow> bill \<Rightarrow> bill" where
  "billPreSave now loaded b =
     (let b1 = (if status b = Sent \<and> dueDate b < now then b\<lparr>status := Overdue\<rparr> else b)
      in if status b1 \<noteq> loaded then
           (let b2 = (if status b1 = Sent \<and> sentAt b1 = None
                      then b1\<lparr>sentAt := Some now, isInMarketplace := True\<rparr> else b1);
                b3 = (if status b2 = Paid \<and> paidAt b2 = None
                      then b2\<lparr>paidAt := Some now, isActive := False, isInMarketplace := False\<rparr>
                      else b2);
                b4 = (if status b3 = Financed \<and> financedAt b3 = None
                      then b3\<lparr>financedAt := Some now\<rparr> else b3)
            in b4)
         else b1)"

text \<open>
  \<open>bidSchema.pre('save')\<close>, both hooks: recompute \<open>bidAmount\<close> for a new document or
  a modified percentage, stamp \<open>acceptedAt\<close> on a status change to accepted.
\<close>

definition bidPreSave :: "date \<Rightarrow> bool \<Rightarrow> bool \<Rightarrow> bool \<Rightarrow> db \<Rightarrow> bid \<Rightarrow> bid" where
  "bidPreSave now isNew pctModified statusModified s b =
     (let b1 = (if isNew \<or> pctModified then
                  (case findBill (bid_bill b) s of
                     Some bl \<Rightarrow> b\<lparr>bidAmount := (amount bl * bid_financingPercentage b) / 100\<rparr>
                   | None \<Rightarrow> b)
                else b)
      in if statusModified \<and> bid_status b1 = Accepted \<and> acceptedAt b1 = None
         then b1\<lparr>acceptedAt := Some now\<rparr> else b1)"

text \<open>The field validators of \<open>bidSchema\<close> that a request can violate.\<close>

definition validPercentage :: "rat \<Rightarrow> bool" where
  "validPercentage p \<longleftrightarrow> 1 \<le> p \<and> p \<le> 95"

definition validInterest :: "rat \<Rightarrow> bool" where
  "validInterest i \<longleftrightarrow> 0 \<le> i"

definition validTerms :: "string option \<Rightarrow> bool" where
  "validTerms t \<longleftrightarrow> (case t of None \<Rightarrow> True | Some x \<Rightarrow> length x \<le> 500)"

definition freshBidId :: "db \<Rightarrow> oid" where
  "freshBidId s = Suc (fold max (map bid_id (bids s)) 0)"

text \<open>
  \<open>Bid.create\<close>. Saving a new document validates it first, and only then runs the
  save hooks: the bid amount, which the schema requires and which would be
  computed by the first hook, must already be there (\<open>None\<close>: the field is absent).
  A document without percentage or amount, with a percentage outside 1..95, a
  negative amount or interest, or terms beyond 500 characters is rejected. An
  accepted document gets a new id, the default status and expiry (24 hours), passes
  through the hooks and is inserted.
\<close>

definition createBid ::
  "date \<Rightarrow> oid \<Rightarrow> oid \<Rightarrow> rat option \<Rightarrow> rat option \<Rightarrow> string option \<Rightarrow> rat \<Rightarrow> db
     \<Rightarrow> error + db" where
  "createBid now billId fin pct amt trm intr s =
     (case pct of
        None \<Rightarrow> Inl ValidationError
      | Some p \<Rightarrow>
          (case amt of
             None \<Rightarrow> Inl ValidationError
           | Some a \<Rightarrow>
               if \<not> validPercentage p \<or> a < 0 \<or> \<not> validInterest intr \<or> \<not> validTerms trm
               then Inl ValidationError
               else Inr (s\<lparr>bids := bids s @
                      [bidPreSave now True False False s
                        \<lparr>bid_id = freshBidId s, bid_bill = billId, bid_financer = fin,
                         bid_financingPercentage = p, bidAmount = a,
                         bid_status = Pending, expiresAt = now + 24 * 60 * 60 * 1000,
                         acceptedAt = None, interest = intr, terms = trm\<rparr>]\<rparr>)))"

text \<open>
  \<open>bill.save()\<close> on a loaded bill. Validation comes before the save hook and
  covers the required paths, so the due-date validator (\<open>date > new Date()\<close>) is
  run again: a bill whose due date is not in the future cannot be saved. The other
  validators of the bill schema do not depend on the time; stored documents are
  taken to satisfy them.
\<close>

definition billSave :: "date \<Rightarrow> bill_status \<Rightarrow> bill \<Rightarrow> db \<Rightarrow> error + db" where
  "billSave now loaded b s =
     (if now < dueDate b then Inr (saveBill (billPreSave now loaded b) s)
      else Inl ValidationError)"

section \<open>Bid controller\<close>

text \<open>
  \<open>placeBid\<close>. The document handed to \<open>Bid.create\<close> has the fields bill, financer,
  financingPercentage, terms and interest, and no bidAmount.
\<close>

definition placeBid ::
  "oid \<Rightarrow> oid \<Rightarrow> rat option \<Rightarrow> string option \<Rightarrow> rat option \<Rightarrow> date \<Rightarrow> db \<Rightarrow> response" where
  "placeBid actor billId pct trm intr now s =
     (case reqUser actor s of
        None \<Rightarrow> (Inl Unauthenticated, s)
      | Some u \<Rightarrow>
          if role u \<noteq> Financer then (Inl Forbidden, s)
          else (case findBill billId s of
                  None \<Rightarrow> (Inl NotFound, s)
                | Some bl \<Rightarrow>
                    if \<not> isInMarketplace bl \<or> status bl \<noteq> Sent then (Inl InvalidState, s)
                    else if financer bl \<noteq> None then (Inl AlreadyFinanced, s)
                    else if dueDate bl \<le> now then (Inl InvalidState, s)
                    else if (case pct of
                               None \<Rightarrow> False
                             | Some p \<Rightarrow> availableFunds u < (amount bl * p) / 100)
                         then (Inl InsufficientFunds, s)
                    else if find (\<lambda>b. bid_bill b = billId \<and> bid_financer b = actor) (bids s) \<noteq> None
                         then (Inl DuplicateBid, s)
                    else (case createBid now billId actor pct None trm
                                 (case intr of None \<Rightarrow> 0 | Some i \<Rightarrow> i) s of
                            Inl e \<Rightarrow> (Inl e, s)
                          | Inr s1 \<Rightarrow> (Inr (), saveUser (updateStats BidPlaced 1 u) s1))))"

text \<open>
  \<open>updateBid\<close>: the three optional arguments are the allowed keys of the request
  body (\<open>None\<close>: key absent). \<open>findByIdAndUpdate\<close> writes the given fields after the
  update validators and runs no save hook.
\<close>

definition updateBid ::
  "oid \<Rightarrow> oid \<Rightarrow> rat option \<Rightarrow> string option \<Rightarrow> rat option \<Rightarrow> date \<Rightarrow> db \<Rightarrow> response" where
  "updateBid actor bidId pct trm intr now s =
     (case reqUser actor s of
        None \<Rightarrow> (Inl Unauthenticated, s)
      | Some u \<Rightarrow>
          (case findBid bidId s of
             None \<Rightarrow> (Inl NotFound, s)
           | Some b \<Rightarrow>
               if bid_financer b \<noteq> actor then (Inl Forbidden, s)
               else if bid_status b \<noteq> Pending then (Inl InvalidState, s)
               else if expiresAt b \<le> now then (Inl error.Expired, s)
               else (case findBill (bid_bill b) s of
                       None \<Rightarrow> (Inl InternalError, s)
                     | Some bl \<Rightarrow>
                         if financer bl \<noteq> None then (Inl AlreadyFinanced, s)
                         else if (case pct of
                                    None \<Rightarrow> False
                                  | Some p \<Rightarrow> p \<noteq> 0 \<and> availableFunds u < (amount bl * p) / 100)
                              then (Inl InsufficientFunds, s)
                         else if (case pct of None \<Rightarrow> False | Some p \<Rightarrow> \<not> validPercentage p)
                                 \<or> (case intr of None \<Rightarrow> False | Some i \<Rightarrow> \<not> validInterest i)
                                 \<or> \<not> validTerms trm
                              then (Inl ValidationError, s)
                         else (Inr (),
                               saveBid (b\<lparr>bid_financingPercentage :=
                                            (case pct of None \<Rightarrow> bid_financingPercentage b
                                                       | Some p \<Rightarrow> p),
                                          terms := (case trm of None \<Rightarrow> terms b | Some t \<Rightarrow> Some t),
                                          interest := (case intr of None \<Rightarrow> interest b
                                                                  | Some i \<Rightarrow> i)\<rparr>) s))))"

definition rejectOthers :: "oid \<Rightarrow> oid \<Rightarrow> db \<Rightarrow> db" where
  "rejectOthers billId bidId s =
     s\<lparr>bids := map (\<lambda>b. if bid_bill b = billId \<and> bid_status b = Pending \<and> bid_id b \<noteq> bidId
                         then b\<lparr>bid_status := Rejected\<rparr> else b) (bids s)\<rparr>"

text \<open>
  \<open>acceptBid\<close>. The bid is saved first (a stored bid is taken to satisfy the
  validators of its schema), then the bill: that save may be refused by the
  due-date validator, with the bid already written.
\<close>

definition acceptBid :: "oid \<Rightarrow> oid \<Rightarrow> date \<Rightarrow> db \<Rightarrow> response" where
  "acceptBid actor bidId now s =
     (case reqUser actor s of
        None \<Rightarrow> (Inl Unauthenticated, s)
      | Some u \<Rightarrow>
          (case findBid bidId s of
             None \<Rightarrow> (Inl NotFound, s)
           | Some b \<Rightarrow>
               (case findBill (bid_bill b) s of
                  None \<Rightarrow> (Inl InternalError, s)
                | Some bl \<Rightarrow>
                    if organization bl \<noteq> actor then (Inl Forbidden, s)
                    else if bid_status b \<noteq> Pending then (Inl InvalidState, s)
                    else if expiresAt b \<le> now then (Inl error.Expired, s)
                    else if financer bl \<noteq> None then (Inl AlreadyFinanced, s)
                    else
                      (let b' = bidPreSave now False False True s (b\<lparr>bid_status := Accepted\<rparr>);
                           s1 = saveBid b' s
                       in (case billSave now (status bl)
                                  (bl\<lparr>financer := Some (bid_financer b'),
                                      currentOwner := bid_financer b',
                                      status := Financed,
                                      financingPercentage := Some (bid_financingPercentage b'),
                                      financedAmount := bidAmount b',
                                      isInMarketplace := False\<rparr>) s1 of
                             Inl e \<Rightarrow> (Inl e, s1)
                           | Inr s2 \<Rightarrow>
                               (let s3 = rejectOthers (bill_id bl) (bid_id b') s2
                                in (case findUser (bid_financer b') s3 of
                                      None \<Rightarrow> (Inl InternalError, s3)
                                    | Some f \<Rightarrow>
                                        (let f1 = updateStats BidWon 1 f;
                                             f2 = updateStats Invested (bidAmount b') f1;
                                             f3 = f2\<lparr>availableFunds :=
                                                       availableFunds f2 - bidAmount b'\<rparr>
                                         in (Inr (), saveUser f3 s3)))))))))"

definition cancelBid :: "oid \<Rightarrow> oid \<Rightarrow> db \<Rightarrow> response" where
  "cancelBid actor bidId s =
     (case reqUser actor s of
        None \<Rightarrow> (Inl Unauthenticated, s)
      | Some u \<Rightarrow>
          (case findBid bidId s of
             None \<Rightarrow> (Inl NotFound, s)
           | Some b \<Rightarrow>
               if bid_financer b \<noteq> actor then (Inl Forbidden, s)
               else if bid_status b \<noteq> Pending then (Inl InvalidState, s)
               else (Inr (), s\<lparr>bids := filter (\<lambda>x. bid_id x \<noteq> bidId) (bids s)\<rparr>)))"

section \<open>Bill controller\<close>

definition sendBill :: "oid \<Rightarrow> oid \<Rightarrow> date \<Rightarrow> db \<Rightarrow> response" where
  "sendBill actor billId now s =
     (case reqUser actor s of
        None \<Rightarrow> (Inl Unauthenticated, s)
      | Some u \<Rightarrow>
          (case findBill billId s of
             None \<Rightarrow> (Inl NotFound, s)
           | Some bl \<Rightarrow>
               if organization bl \<noteq> actor then (Inl Forbidden, s)
               else if status bl \<noteq> Draft then (Inl InvalidState, s)
               else
                 (case billSave now (status bl) (bl\<lparr>status := Sent\<rparr>) s of
                    Inl e \<Rightarrow> (Inl e, s)
                  | Inr s1 \<Rightarrow>
                      (let s2 = saveUser (updateStats BillSent 1 u) s1
                       in (case findUser (customer bl) s2 of
                             None \<Rightarrow> (Inl InternalError, s2)
                           | Some c \<Rightarrow>
                               (Inr (), saveUser (updateStats BillReceived 1 c) s2))))))"

definition payBill :: "oid \<Rightarrow> oid \<Rightarrow> date \<Rightarrow> db \<Rightarrow> response" where
  "payBill actor billId now s =
     (case reqUser actor s of
        None \<Rightarrow> (Inl Unauthenticated, s)
      | Some u \<Rightarrow>
          (case findBill billId s of
             None \<Rightarrow> (Inl NotFound, s)
           | Some bl \<Rightarrow>
               if customer bl \<noteq> actor then (Inl Forbidden, s)
               else if status bl = Paid then (Inl InvalidState, s)
               else if status bl \<noteq> Sent \<and> status bl \<noteq> Overdue \<and> status bl \<noteq> Financed
                    then (Inl InvalidState, s)
               else
                 (case billSave now (status bl) (bl\<lparr>status := Paid\<rparr>) s of
                    Inl e \<Rightarrow> (Inl e, s)
                  | Inr s1 \<Rightarrow>
                      (let u1 = updateStats BillPaid 1 u;
                           s2 = saveUser u1 s1;
                           u2 = updateStats AmountPaid (amount bl) u1;
                           s3 = saveUser u2 s2
                       in (case findUser (currentOwner bl) s3 of
                             None \<Rightarrow> (Inl InternalError, s3)
                           | Some ow \<Rightarrow>
                               if role ow = Organization
                               then (Inr (), saveUser (updateStats RevenueEarned (amount bl) ow) s3)
                               else if role ow = Financer
                               then (Inr (), saveUser (updateStats ReturnsEarned
                                                         (amount bl - financedAmount bl) ow) s3)
                               else (Inr (), s3))))))"

text \<open>
  The two list queries. The result order (\<open>sort\<close>), \<open>populate\<close> and the generic
  query-string features are not modelled.
\<close>

definition getBillsByStatus :: "oid \<Rightarrow> bill_status \<Rightarrow> db \<Rightarrow> error + bill list" where
  "getBillsByStatus actor st s =
     (case reqUser actor s of
        None \<Rightarrow> Inl Unauthenticated
      | Some u \<Rightarrow>
          Inr (filter (\<lambda>b. status b = st \<and>
                           (case role u of
                              Organization \<Rightarrow> organization b = actor
                            | Customer \<Rightarrow> customer b = actor
                            | Financer \<Rightarrow> financer b = Some actor)) (bills s)))"

text \<open>
  The marketplace filter asks for \<open>financer: { $exists: false }\<close>. The bill schema
  gives \<open>financer\<close> the default \<open>null\<close>, which is stored with every bill, so the
  field exists in every bill document, financed or not.
\<close>

definition financerFieldAbsent :: "bill \<Rightarrow> bool" where
  "financerFieldAbsent b = False"

definition getMarketplaceBills :: "oid \<Rightarrow> date \<Rightarrow> db \<Rightarrow> error + bill list" where
  "getMarketplaceBills actor now s =
     (case reqUser actor s of
        None \<Rightarrow> Inl Unauthenticated
      | Some u \<Rightarrow>
          if role u \<noteq> Financer then Inl Forbidden
          else Inr (filter (\<lambda>b. isInMarketplace b \<and> status b = Sent \<and> now < dueDate b
                               \<and> financerFieldAbsent b) (bills s)))"

section \<open>User controller: funds\<close>

definition addFunds :: "oid \<Rightarrow> rat option \<Rightarrow> db \<Rightarrow> response" where
  "addFunds actor amt s =
     (case reqUser actor s of
        None \<Rightarrow> (Inl Unauthenticated, s)
      | Some u \<Rightarrow>
          if role u \<noteq> Financer then (Inl Forbidden, s)
          else (case amt of
                  None \<Rightarrow> (Inl ValidationError, s)
                | Some a \<Rightarrow>
                    if a = 0 \<or> a \<le> 0 then (Inl ValidationError, s)
                    else (Inr (), saveUser (u\<lparr>availableFunds := availableFunds u + a\<rparr>) s)))"

text \<open>\<open>deleteMe\<close> deactivates the account: \<open>findByIdAndUpdate(id, { active: false })\<close>.\<close>

definition deleteMe :: "oid \<Rightarrow> db \<Rightarrow> response" where
  "deleteMe actor s =
     (case reqUser actor s of
        None \<Rightarrow> (Inl Unauthenticated, s)
      | Some u \<Rightarrow> (Inr (), saveUser (u\<lparr>active := False\<rparr>) s))"

section \<open>Requests and runs\<close>

datatype request =
    PlaceBid oid oid "rat option" "string option" "rat option"
  | UpdateBid oid oid "rat option" "string option" "rat option"
  | AcceptBid oid oid
  | CancelBid oid oid
  | SendBill oid oid
  | PayBill oid oid
  | AddFunds oid "rat option"
  | DeleteMe oid

fun step :: "request \<Rightarrow> date \<Rightarrow> db \<Rightarrow> response" where
  "step (PlaceBid a bl p t i) now s = placeBid a bl p t i now s"
| "step (UpdateBid a b p t i) now s = updateBid a b p t i now s"
| "step (AcceptBid a b) now s = acceptBid a b now s"
| "step (CancelBid a b) now s = cancelBid a b s"
| "step (SendBill a bl) now s = sendBill a bl now s"
| "step (PayBill a bl) now s = payBill a bl now s"
| "step (AddFunds a amt) now s = addFunds a amt s"
| "step (DeleteMe a) now s = deleteMe a s"

text \<open>Running a sequence of timed requests; a failed request does not stop the run.\<close>

fun run :: "(request \<times> date) list \<Rightarrow> db \<Rightarrow> db" where
  "run [] s = s"
| "run ((r, now) # rs) s = run rs (snd (step r now s))"

section \<open>Stated invariants, as checks on a store\<close>

text \<open>
  The bid invariant of the data model: the bid amount is the parent bill's amount
  times the bid's percentage over 100 (a bid whose bill is gone is not judged).
\<close>

definition bidAmountOk :: "db \<Rightarrow> bid \<Rightarrow> bool" where
  "bidAmountOk s b =
     (case findBill (bid_bill b) s of
        None \<Rightarrow> True
      | Some bl \<Rightarrow> bidAmount b = (amount bl * bid_financingPercentage b) / 100)"

text \<open>The bill invariant: a financed bill carries the amount its percentage gives.\<close>

definition financedAmountOk :: "bill \<Rightarrow> bool" where
  "financedAmountOk bl =
     (if status bl = Financed
      then (case financingPercentage bl of
              None \<Rightarrow> False
            | Some p \<Rightarrow> financedAmount bl = (amount bl * p) / 100)
      else True)"

text \<open>Object ids are unique within the bid collection.\<close>

definition uniqueBidIds :: "db \<Rightarrow> bool" where
  "uniqueBidIds s = distinct (map bid_id (bids s))"


text \<open>The user invariant: no account has a negative balance.\<close>

definition fundsNonNegative :: "db \<Rightarrow> bool" where
  "fundsNonNegative s = list_all (\<lambda>u. 0 \<le> availableFunds u) (users s)"

section \<open>A small marketplace\<close>

text \<open>
  Documents as the schemas' defaults give them: a user without funds or counters,
  a draft bill owned by its organization.
\<close>

definition newUser :: "oid \<Rightarrow> role \<Rightarrow> user" where
  "newUser i r =
     \<lparr>user_id = i, role = r, active = True, availableFunds = 0,
      totalBillsCreated = 0, totalBillsSent = 0, totalRevenue = 0,
      totalBillsReceived = 0, totalBillsPaid = 0, totalAmountPaid = 0,
      totalBidsPlaced = 0, totalBidsWon = 0, totalInvestmentAmount = 0,
      totalReturns = 0\<rparr>"

definition newBill :: "oid \<Rightarrow> rat \<Rightarrow> date \<Rightarrow> oid \<Rightarrow> oid \<Rightarrow> bill" where
  "newBill i a d org cust =
     \<lparr>bill_id = i, amount = a, dueDate = d, status = Draft, isActive = True,
      organization = org, customer = cust, currentOwner = org,
      isInMarketplace = False, financingPercentage = None, financedAmount = 0,
      financer = None, sentAt = None, paidAt = None, financedAt = None\<rparr>"

text \<open>
  A pending bid document that satisfies the bid schema: id, bill, financer,
  percentage, amount and expiry as given, no interest, no terms.
\<close>

definition storedBid :: "oid \<Rightarrow> oid \<Rightarrow> oid \<Rightarrow> rat \<Rightarrow> rat \<Rightarrow> date \<Rightarrow> bid" where
  "storedBid i bl fin p a ex =
     \<lparr>bid_id = i, bid_bill = bl, bid_financer = fin, bid_financingPercentage = p,
      bidAmount = a, bid_status = Pending, expiresAt = ex, acceptedAt = None,
      interest = 0, terms = None\<rparr>"

text \<open>
  Organization 1, customer 2, financers 3 and 4; two draft bills of 10000, due at
  time 1000000000.
\<close>

definition world0 :: db where
  "world0 =
     \<lparr>bills = [newBill 10 10000 1000000000 1 2, newBill 11 10000 1000000000 1 2],
      bids = [],
      users = [newUser 1 Organization, newUser 2 Customer, newUser 3 Financer,
               newUser 4 Financer]\<rparr>"

text \<open>Financer 3 holds 5000, financer 4 holds 10000, both bills are sent.\<close>

definition market :: db where
  "market =
     run [(AddFunds 3 (Some 5000), 100), (AddFunds 4 (Some 10000), 100),
          (SendBill 1 10, 1000), (SendBill 1 11, 1000)] world0"

text \<open>
  The stores below hold bids. No request stores a bid (placement is always
  rejected, see \<open>placeBid_never_stores\<close>), so the bid documents are put into the
  collection as they are. Bid 1: financer 3 offers 40 percent of bill 10.
\<close>

definition oneBid :: db where
  "oneBid = market\<lparr>bids := [storedBid 1 10 3 40 4000 86402000]\<rparr>"

text \<open>The financer raises bid 1 to 50 percent.\<close>

definition raisedBid :: db where
  "raisedBid = run [(UpdateBid 3 1 (Some 50) None None, 2500)] oneBid"

text \<open>... and the organization accepts it.\<close>

definition raisedAccepted :: db where
  "raisedAccepted = run [(AcceptBid 1 1, 3000)] raisedBid"

text \<open>Bids 1 and 2 on bill 10: financer 3 offers 40 percent, financer 4 offers 50.\<close>

definition twoBids :: db where
  "twoBids =
     market\<lparr>bids := [storedBid 1 10 3 40 4000 86402000, storedBid 2 10 4 50 5000 86402100]\<rparr>"

text \<open>The organization accepts bid 2; bid 1 is rejected.\<close>

definition financedByFour :: db where
  "financedByFour = run [(AcceptBid 1 2, 3000)] twoBids"

text \<open>Financer 3, holding 5000, has a bid of 4000 on each bill; both are accepted.\<close>

definition bothBills :: db where
  "bothBills =
     market\<lparr>bids := [storedBid 1 10 3 40 4000 86402000, storedBid 2 11 3 40 4000 86402100]\<rparr>"

definition bothAccepted :: db where
  "bothAccepted = run [(AcceptBid 1 1, 3000), (AcceptBid 1 2, 3100)] bothBills"

text \<open>Bid 1 on bill 10 expires a day after the bill falls due.\<close>

definition lateBid :: db where
  "lateBid = market\<lparr>bids := [storedBid 1 10 3 40 4000 1086400000]\<rparr>"

section \<open>What a successful acceptance writes\<close>

text \<open>
  The documents and the store that \<open>acceptBid\<close> produces once all its checks have
  passed and the bill could be saved, named so that its effect can be stated: the
  accepted bid, the financed bill, the store after the three writes to bids and
  bills, and the winning financer after the counters and the debit.
\<close>

definition acceptedBid :: "date \<Rightarrow> bid \<Rightarrow> bid" where
  "acceptedBid now b =
     (if acceptedAt b = None then b\<lparr>bid_status := Accepted, acceptedAt := Some now\<rparr>
      else b\<lparr>bid_status := Accepted\<rparr>)"

definition financedBill :: "date \<Rightarrow> bid \<Rightarrow> bill \<Rightarrow> bill" where
  "financedBill now b bl =
     billPreSave now (status bl)
       (bl\<lparr>financer := Some (bid_financer b), currentOwner := bid_financer b,
           status := Financed, financingPercentage := Some (bid_financingPercentage b),
           financedAmount := bidAmount b, isInMarketplace := False\<rparr>)"

definition acceptWrites :: "date \<Rightarrow> oid \<Rightarrow> bid \<Rightarrow> bill \<Rightarrow> db \<Rightarrow> db" where
  "acceptWrites now bidId b bl s =
     rejectOthers (bid_bill b) bidId
       (saveBill (financedBill now b bl) (saveBid (acceptedBid now b) s))"

definition debited :: "bid \<Rightarrow> user \<Rightarrow> user" where
  "debited b f =
     (updateStats Invested (bidAmount b) (updateStats BidWon 1 f))
       \<lparr>availableFunds := availableFunds f - bidAmount b\<rparr>"

text \<open>
  How one request may change the bill collection: not at all, or by saving one
  document over the bill of the same id, keeping its organization and, once set,
  its financer.
\<close>

definition billWrite :: "db \<Rightarrow> db \<Rightarrow> bool" where
  "billWrite s s' \<longleftrightarrow>
     bills s' = bills s \<or>
     (\<exists>bl0 d. findBill (bill_id d) s = Some bl0 \<and> bills s' = bills (saveBill d s) \<and>
        organization d = organization bl0 \<and>
        (financer bl0 \<noteq> None \<longrightarrow> financer d = financer bl0))"


text \<open>
  A rewrite of the bid collection that keeps, for every stored bid, its id, bill
  and financer, and leaves every bid that is not pending as it is.
\<close>

definition bidRewrite :: "db \<Rightarrow> (bid \<Rightarrow> bid) \<Rightarrow> bool" where
  "bidRewrite s f \<longleftrightarrow>
     (\<forall>x \<in> set (bids s). bid_id (f x) = bid_id x \<and> bid_bill (f x) = bid_bill x \<and>
        bid_financer (f x) = bid_financer x \<and> (bid_status x \<noteq> Pending \<longrightarrow> f x = x))"

section \<open>Facts about the persistence layer\<close>

lemmas store_defs =
  findBill_def findBid_def findUser_def saveBill_def saveBid_def saveUser_def reqUser_def
  billPreSave_def bidPreSave_def billSave_def validPercentage_def validInterest_def
  validTerms_def freshBidId_def createBid_def rejectOthers_def financerFieldAbsent_def
  Let_def

lemmas controller_defs =
  placeBid_def updateBid_def acceptBid_def cancelBid_def sendBill_def payBill_def
  addFunds_def deleteMe_def

lemmas fixture_defs = newUser_def newBill_def storedBid_def world0_def

lemma find_map_keep:
  assumes "\<And>x. P (f x) = P x"
  shows "find P (map f xs) = map_option f (find P xs)"
  by (induction xs) (simp_all add: assms)

lemma saveUser_fields [simp]:
  "bills (saveUser d s) = bills s" "bids (saveUser d s) = bids s"
  by (simp_all add: saveUser_def)

lemma saveBill_fields [simp]:
  "users (saveBill d s) = users s" "bids (saveBill d s) = bids s"
  by (simp_all add: saveBill_def)

lemma saveBid_fields [simp]:
  "users (saveBid d s) = users s" "bills (saveBid d s) = bills s"
  by (simp_all add: saveBid_def)

lemma rejectOthers_fields [simp]:
  "users (rejectOthers i j s) = users s" "bills (rejectOthers i j s) = bills s"
  by (simp_all add: rejectOthers_def)

lemma findBill_cong: "bills s' = bills s \<Longrightarrow> findBill i s' = findBill i s"
  by (simp add: findBill_def)

lemma findBid_cong: "bids s' = bids s \<Longrightarrow> findBid i s' = findBid i s"
  by (simp add: findBid_def)

lemma findUser_cong: "users s' = users s \<Longrightarrow> findUser i s' = findUser i s"
  by (simp add: findUser_def)

lemma findBill_saveBill:
  "findBill i (saveBill d s) =
     map_option (\<lambda>x. if bill_id x = bill_id d then d else x) (findBill i s)"
  unfolding findBill_def saveBill_def by (simp add: find_map_keep)

lemma findBid_saveBid:
  "findBid i (saveBid d s) =
     map_option (\<lambda>x. if bid_id x = bid_id d then d else x) (findBid i s)"
  unfolding findBid_def saveBid_def by (simp add: find_map_keep)

lemma findBid_rejectOthers:
  "findBid i (rejectOthers bl j s) =
     map_option (\<lambda>b. if bid_bill b = bl \<and> bid_status b = Pending \<and> bid_id b \<noteq> j
                       then b\<lparr>bid_status := Rejected\<rparr> else b) (findBid i s)"
  unfolding findBid_def rejectOthers_def by (simp add: find_map_keep)

lemma findBill_SomeD: "findBill i s = Some b \<Longrightarrow> bill_id b = i \<and> b \<in> set (bills s)"
  by (auto simp: findBill_def find_Some_iff)

lemma findBid_SomeD: "findBid i s = Some b \<Longrightarrow> bid_id b = i \<and> b \<in> set (bids s)"
  by (auto simp: findBid_def find_Some_iff)

lemma findUser_SomeD:
  "findUser i s = Some u \<Longrightarrow> user_id u = i \<and> active u \<and> u \<in> set (users s)"
  by (auto simp: findUser_def find_Some_iff)

text \<open>Saving an active user document never hides a user that could be found before.\<close>

lemma findUser_saveUser_keeps:
  assumes "findUser i s \<noteq> None" and "active d"
  shows "findUser i (saveUser d s) \<noteq> None"
proof -
  from assms(1) obtain u where u: "u \<in> set (users s)" "user_id u = i" "active u"
    by (auto simp: findUser_def find_None_iff)
  let ?f = "\<lambda>x. if user_id x = user_id d then d else x"
  have "?f u \<in> set (users (saveUser d s))"
    using u(1) by (simp add: saveUser_def)
  moreover have "user_id (?f u) = i \<and> active (?f u)"
    using u assms(2) by simp
  ultimately show ?thesis
    unfolding findUser_def find_None_iff by blast
qed

lemma updateStats_keeps [simp]:
  "user_id (updateStats k v u) = user_id u" "active (updateStats k v u) = active u"
  "role (updateStats k v u) = role u"
  "availableFunds (updateStats k v u) = availableFunds u"
  by (cases k; simp)+

lemma billPreSave_keeps [simp]:
  "bill_id (billPreSave now st b) = bill_id b"
  "financer (billPreSave now st b) = financer b"
  "organization (billPreSave now st b) = organization b"
  "customer (billPreSave now st b) = customer b"
  "amount (billPreSave now st b) = amount b"
  "currentOwner (billPreSave now st b) = currentOwner b"
  "financedAmount (billPreSave now st b) = financedAmount b"
  "financingPercentage (billPreSave now st b) = financingPercentage b"
  by (simp_all add: billPreSave_def Let_def)

lemma bidPreSave_keeps [simp]:
  "bid_id (bidPreSave now n p m s b) = bid_id b"
  "bid_bill (bidPreSave now n p m s b) = bid_bill b"
  "bid_financer (bidPreSave now n p m s b) = bid_financer b"
  "bid_status (bidPreSave now n p m s b) = bid_status b"
  "bid_financingPercentage (bidPreSave now n p m s b) = bid_financingPercentage b"
  "expiresAt (bidPreSave now n p m s b) = expiresAt b"
  by (simp_all add: bidPreSave_def Let_def split: option.splits)

section \<open>The marketplace states, computed\<close>

lemma market_eq:
  "market =
     \<lparr>bills = [(newBill 10 10000 1000000000 1 2)
                  \<lparr>status := Sent, sentAt := Some 1000, isInMarketplace := True\<rparr>,
               (newBill 11 10000 1000000000 1 2)
                  \<lparr>status := Sent, sentAt := Some 1000, isInMarketplace := True\<rparr>],
      bids = [],
      users = [(newUser 1 Organization)\<lparr>totalBillsSent := 2\<rparr>,
               (newUser 2 Customer)\<lparr>totalBillsReceived := 2\<rparr>,
               (newUser 3 Financer)\<lparr>availableFunds := 5000\<rparr>,
               (newUser 4 Financer)\<lparr>availableFunds := 10000\<rparr>]\<rparr>"
  by (simp add: market_def fixture_defs store_defs controller_defs)

lemmas scenario_defs =
  oneBid_def twoBids_def bothBills_def lateBid_def market_eq fixture_defs store_defs
  controller_defs

section \<open>Failed requests and their effects\<close>

text \<open>
  Placement never stores a bid: when all checks pass, the document handed to
  \<open>Bid.create\<close> lacks the required amount and is rejected.
\<close>

lemma createBid_without_amount: "createBid now bl fin p None t i s = Inl ValidationError"
  by (simp add: createBid_def split: option.splits)

lemma placeBid_never_stores: "\<exists>e. placeBid a bl p t i now s = (Inl e, s)"
  unfolding placeBid_def
  by (simp add: createBid_without_amount split: option.splits)

lemma placeBid_error_keeps:
  "placeBid a bl p t i now s = (Inl e, s') \<Longrightarrow> s' = s"
  using placeBid_never_stores [of a bl p t i now s] by auto

lemma updateBid_error_keeps:
  "updateBid a b p t i now s = (Inl e, s') \<Longrightarrow> s' = s"
  by (auto simp: updateBid_def split: option.splits if_splits)

lemma cancelBid_error_keeps:
  "cancelBid a b s = (Inl e, s') \<Longrightarrow> s' = s"
  by (auto simp: cancelBid_def split: option.splits if_splits)

lemma addFunds_error_keeps:
  "addFunds a amt s = (Inl e, s') \<Longrightarrow> s' = s"
  by (auto simp: addFunds_def split: option.splits if_splits)

lemma deleteMe_error_keeps:
  "deleteMe a s = (Inl e, s') \<Longrightarrow> s' = s"
  by (auto simp: deleteMe_def split: option.splits)

lemma acceptBid_error_keeps:
  "acceptBid a b now s = (Inl e, s') \<Longrightarrow> e \<noteq> InternalError \<Longrightarrow> e \<noteq> ValidationError
     \<Longrightarrow> s' = s"
  by (auto simp: acceptBid_def billSave_def Let_def split: option.splits if_splits)

lemma sendBill_error_keeps:
  "sendBill a b now s = (Inl e, s') \<Longrightarrow> e \<noteq> InternalError \<Longrightarrow> s' = s"
  by (auto simp: sendBill_def billSave_def Let_def split: option.splits if_splits)

lemma payBill_error_keeps:
  "payBill a b now s = (Inl e, s') \<Longrightarrow> e \<noteq> InternalError \<Longrightarrow> s' = s"
  by (auto simp: payBill_def billSave_def Let_def split: option.splits if_splits)

text \<open>
  Claim C2, as amended. A request that is refused by one of its own checks leaves
  bills, bids and users exactly as they were, since all checks of a controller come
  before its first write. This covers every error but two: the internal error
  raised when a user or bill record cannot be loaded, and the validation error of
  an acceptance, raised when the bill can no longer be saved; both come after
  writes. A validation error of any other request comes before its first write.
\<close>

theorem failed_precondition_no_effect:
  "step r now s = (Inl e, s') \<Longrightarrow> e \<noteq> InternalError \<Longrightarrow>
   (e = ValidationError \<longrightarrow> (\<forall>a b. r \<noteq> AcceptBid a b)) \<Longrightarrow> s' = s"
  by (cases r)
     (auto dest: placeBid_error_keeps updateBid_error_keeps cancelBid_error_keeps
        addFunds_error_keeps deleteMe_error_keeps acceptBid_error_keeps
        sendBill_error_keeps payBill_error_keeps)

text \<open>
  The theorem at work: after bid 2 won bill 10, accepting bid 1 is refused and the
  store is untouched; and paying bill 11 after its due date is refused by the
  validator, without effect.
\<close>

theorem failed_precondition_no_effect_witness:
  "fst (step (AcceptBid 1 1) 4000 financedByFour) = Inl InvalidState \<and>
   snd (step (AcceptBid 1 1) 4000 financedByFour) = financedByFour \<and>
   fst (step (PayBill 2 11) 2000000000 market) = Inl ValidationError \<and>
   snd (step (PayBill 2 11) 2000000000 market) = market"
proof -
  have res: "fst (step (AcceptBid 1 1) 4000 financedByFour) = Inl InvalidState"
    by (simp add: financedByFour_def scenario_defs)
  then have "step (AcceptBid 1 1) 4000 financedByFour =
      (Inl InvalidState, snd (step (AcceptBid 1 1) 4000 financedByFour))"
    by (simp add: prod_eq_iff)
  from failed_precondition_no_effect [OF this]
  have a: "snd (step (AcceptBid 1 1) 4000 financedByFour) = financedByFour" by simp
  have res2: "fst (step (PayBill 2 11) 2000000000 market) = Inl ValidationError"
    by (simp add: scenario_defs)
  then have "step (PayBill 2 11) 2000000000 market =
      (Inl ValidationError, snd (step (PayBill 2 11) 2000000000 market))"
    by (simp add: prod_eq_iff)
  from failed_precondition_no_effect [OF this]
  have b: "snd (step (PayBill 2 11) 2000000000 market) = market" by simp
  from res a res2 b show ?thesis by simp
qed

text \<open>
  Claim C2 as stated fails. Bid 1 on bill 10 is still pending and unexpired just
  after the bill has fallen due. Accepting it saves the bid as accepted; the save
  of the bill is then rejected by the due-date validator, and the request ends in
  an error with the bid changed and the bill not.
\<close>

theorem acceptBid_partial_effects:
  "fst (acceptBid 1 1 1000001000 lateBid) = Inl ValidationError \<and>
   map bid_status (bids lateBid) = [Pending] \<and>
   map bid_status (bids (snd (acceptBid 1 1 1000001000 lateBid))) = [Accepted] \<and>
   map status (bills lateBid) = [Sent, Sent] \<and>
   map status (bills (snd (acceptBid 1 1 1000001000 lateBid))) = [Sent, Sent] \<and>
   users (snd (acceptBid 1 1 1000001000 lateBid)) = users lateBid"
  by (simp add: scenario_defs)

section \<open>Bid amounts\<close>

text \<open>
  Claim C3 fails on the update path. Bill 10 is worth 10000 and the store holds bid
  1 on it at 40 percent with amount 4000, as the equation demands. The financer
  updates the bid to 50 percent: the request succeeds, and the stored amount is
  still 4000.
\<close>

theorem updateBid_keeps_stale_bidAmount:
  "list_all (bidAmountOk oneBid) (bids oneBid) \<and>
   fst (step (UpdateBid 3 1 (Some 50) None None) 2500 oneBid) = Inr () \<and>
   map bid_bill (bids raisedBid) = [10] \<and>
   map bid_financingPercentage (bids raisedBid) = [50] \<and>
   map bidAmount (bids raisedBid) = [4000] \<and>
   map_option amount (findBill 10 raisedBid) = Some 10000 \<and>
   \<not> list_all (bidAmountOk raisedBid) (bids raisedBid)"
  by (simp add: raisedBid_def bidAmountOk_def scenario_defs)

text \<open>
  With pending bids in the store, the stale amount travels on: once the raised bid
  is accepted, bill 10 is financed at 50 percent with a financed amount of 4000.
\<close>

lemma stored_bid_raised_then_accepted:
  "list_all financedAmountOk (bills raisedBid) \<and>
   fst (step (AcceptBid 1 1) 3000 raisedBid) = Inr () \<and>
   map_option financingPercentage (findBill 10 raisedAccepted) = Some (Some 50) \<and>
   map_option financedAmount (findBill 10 raisedAccepted) = Some 4000 \<and>
   \<not> list_all financedAmountOk (bills raisedAccepted)"
  by (simp add: raisedAccepted_def raisedBid_def financedAmountOk_def scenario_defs)

text \<open>
  Likewise, acceptance debits the bid amount without looking at the balance:
  financer 3 holds 5000 and has a stored bid of 4000 on each of two bills; after
  both are accepted the balance is 5000 - 8000.
\<close>

lemma stored_bids_accepted_overdraw:
  "map_option availableFunds (findUser 3 bothBills) = Some 5000 \<and>
   map bid_status (bids bothAccepted) = [Accepted, Accepted] \<and>
   map_option availableFunds (findUser 3 bothAccepted) = Some (- 3000)"
  by (simp add: bothAccepted_def scenario_defs)

section \<open>Acceptance\<close>

lemma bidPreSave_accept:
  "bidPreSave now False False True s b = 
     (if bid_status b = Accepted \<and> acceptedAt b = None then b\<lparr>acceptedAt := Some now\<rparr> else b)"
  by (simp add: bidPreSave_def)

lemma acceptBid_pass:
  assumes "reqUser a s = Some u" "findBid bidId s = Some b" "findBill (bid_bill b) s = Some bl"
    "organization bl = a" "bid_status b = Pending" "now < expiresAt b" "financer bl = None"
  shows "acceptBid a bidId now s =
     (if now < dueDate bl then
        (case findUser (bid_financer b) (acceptWrites now bidId b bl s) of
           None \<Rightarrow> (Inl InternalError, acceptWrites now bidId b bl s)
         | Some f \<Rightarrow> (Inr (), saveUser (debited b f) (acceptWrites now bidId b bl s)))
      else (Inl ValidationError, saveBid (acceptedBid now b) s))"
proof -
  have ids: "bid_id b = bidId" "bill_id bl = bid_bill b"
    using findBid_SomeD [OF assms(2)] findBill_SomeD [OF assms(3)] by simp_all
  have pre: "bidPreSave now False False True s (b\<lparr>bid_status := Accepted\<rparr>) = acceptedBid now b"
    by (simp add: bidPreSave_accept acceptedBid_def)
  have amt: "bidAmount (acceptedBid now b) = bidAmount b"
    "bid_financer (acceptedBid now b) = bid_financer b"
    "bid_financingPercentage (acceptedBid now b) = bid_financingPercentage b"
    "bid_id (acceptedBid now b) = bid_id b"
    by (simp_all add: acceptedBid_def)
  have le: "\<not> expiresAt b \<le> now" using assms(6) by simp
  show ?thesis
  proof (cases "now < dueDate bl")
    case False
    then show ?thesis
      unfolding acceptBid_def
      by (simp add: assms(1-5,7) le Let_def pre billSave_def)
  next
    case due: True
    show ?thesis
    proof (cases "findUser (bid_financer b) (acceptWrites now bidId b bl s)")
      case None
      then show ?thesis
        unfolding acceptBid_def
        by (simp add: assms(1-5,7) le due Let_def pre amt ids billSave_def financedBill_def
            acceptWrites_def)
    next
      case (Some f)
      then show ?thesis
        unfolding acceptBid_def
        by (simp add: assms(1-5,7) le due Let_def pre amt ids billSave_def financedBill_def
            acceptWrites_def debited_def del: updateStats.simps)
    qed
  qed
qed

lemma acceptBid_refused:
  assumes "\<not> (\<exists>u b bl. reqUser a s = Some u \<and> findBid bidId s = Some b \<and>
              findBill (bid_bill b) s = Some bl \<and> organization bl = a \<and>
              bid_status b = Pending \<and> now < expiresAt b \<and> financer bl = None)"
  shows "\<exists>e. acceptBid a bidId now s = (Inl e, s)"
  using assms unfolding acceptBid_def
  by (auto split: option.splits)

lemma acceptBid_InrD:
  assumes "acceptBid actor bidId now s = (Inr (), s')"
  shows "\<exists>b bl f u. reqUser actor s = Some u \<and> findBid bidId s = Some b \<and>
           findBill (bid_bill b) s = Some bl \<and> organization bl = actor \<and>
           bid_status b = Pending \<and> now < expiresAt b \<and> financer bl = None \<and>
           findUser (bid_financer b) (acceptWrites now bidId b bl s) = Some f \<and>
           s' = saveUser (debited b f) (acceptWrites now bidId b bl s)"
proof (rule ccontr)
  assume neg: "\<not> ?thesis"
  show False
  proof (cases "\<exists>u b bl. reqUser actor s = Some u \<and> findBid bidId s = Some b \<and>
              findBill (bid_bill b) s = Some bl \<and> organization bl = actor \<and>
              bid_status b = Pending \<and> now < expiresAt b \<and> financer bl = None")
    case False
    from acceptBid_refused [OF this] assms show False by auto
  next
    case True
    then obtain u b bl where c: "reqUser actor s = Some u" "findBid bidId s = Some b"
      "findBill (bid_bill b) s = Some bl" "organization bl = actor"
      "bid_status b = Pending" "now < expiresAt b" "financer bl = None" by blast
    from assms acceptBid_pass [OF c] obtain f where
      "findUser (bid_financer b) (acceptWrites now bidId b bl s) = Some f"
      "s' = saveUser (debited b f) (acceptWrites now bidId b bl s)"
      by (auto split: option.splits if_splits)
    with c neg show False by blast
  qed
qed

text \<open>
  Claim C5. A successful acceptance of bid \<open>bidId\<close> (whose bill is that of \<open>b\<close>)
  keeps every bid document in place and changes them as follows: the accepted bid
  becomes accepted (so it is not rejected), every other bid on the same bill that
  was pending becomes rejected and is otherwise unchanged, and every other bid that
  was not pending, or is on another bill, is unchanged.
\<close>

theorem accept_rejects_other_pending_bids:
  assumes "acceptBid actor bidId now s = (Inr (), s')"
    and "findBid bidId s = Some b"
  shows "length (bids s') = length (bids s) \<and>
    (\<forall>k < length (bids s).
       (bid_id (bids s ! k) = bidId \<longrightarrow> bid_status (bids s' ! k) = Accepted) \<and>
       (bid_id (bids s ! k) \<noteq> bidId \<and> bid_bill (bids s ! k) = bid_bill b \<and>
        bid_status (bids s ! k) = Pending \<longrightarrow>
          bids s' ! k = (bids s ! k)\<lparr>bid_status := Rejected\<rparr>) \<and>
       (bid_id (bids s ! k) \<noteq> bidId \<and>
        (bid_bill (bids s ! k) \<noteq> bid_bill b \<or> bid_status (bids s ! k) \<noteq> Pending) \<longrightarrow>
          bids s' ! k = bids s ! k))"
proof -
  from acceptBid_InrD [OF assms(1)] assms(2) obtain bl f where
    s': "s' = saveUser (debited b f) (acceptWrites now bidId b bl s)"
    by auto
  have id: "bid_id b = bidId" using findBid_SomeD [OF assms(2)] by simp
  have acc: "bid_status (acceptedBid now b) = Accepted" "bid_id (acceptedBid now b) = bidId"
    by (simp_all add: acceptedBid_def id)
  have bids': "bids s' =
      map (\<lambda>x. if bid_bill x = bid_bill b \<and> bid_status x = Pending \<and> bid_id x \<noteq> bidId
                then x\<lparr>bid_status := Rejected\<rparr> else x)
        (map (\<lambda>x. if bid_id x = bidId then acceptedBid now b else x) (bids s))"
    by (simp add: s' acceptWrites_def rejectOthers_def saveBid_def saveBill_def acc)
  show ?thesis
    by (simp add: bids' acc)
qed

text \<open>
  The theorem at work on bill 10 with the two pending bids 1 and 2: accepting bid 2
  rejects bid 1.
\<close>

theorem accept_rejects_other_pending_bids_witness:
  "acceptBid 1 2 3000 twoBids = (Inr (), financedByFour) \<and>
   findBid 2 twoBids = Some (bids twoBids ! 1) \<and>
   length (bids financedByFour) = 2 \<and>
   bids financedByFour ! 0 = (bids twoBids ! 0)\<lparr>bid_status := Rejected\<rparr> \<and>
   bid_status (bids financedByFour ! 1) = Accepted"
proof -
  have h1: "acceptBid 1 2 3000 twoBids = (Inr (), financedByFour)"
    by (simp add: financedByFour_def prod_eq_iff scenario_defs)
  have h2: "findBid 2 twoBids = Some (bids twoBids ! 1)"
    by (simp add: scenario_defs)
  have v: "length (bids twoBids) = 2" "bid_id (bids twoBids ! 0) = 1"
    "bid_id (bids twoBids ! 1) = 2" "bid_bill (bids twoBids ! 1) = 10"
    "bid_bill (bids twoBids ! 0) = 10" "bid_status (bids twoBids ! 0) = Pending"
    by (simp_all add: scenario_defs)
  note t = accept_rejects_other_pending_bids [OF h1 h2]
  from t v have len: "length (bids financedByFour) = 2" by simp
  from t have k: "\<And>k. k < 2 \<Longrightarrow>
       (bid_id (bids twoBids ! k) = 2 \<longrightarrow> bid_status (bids financedByFour ! k) = Accepted) \<and>
       (bid_id (bids twoBids ! k) \<noteq> 2 \<and> bid_bill (bids twoBids ! k) = bid_bill (bids twoBids ! 1) \<and>
        bid_status (bids twoBids ! k) = Pending \<longrightarrow>
          bids financedByFour ! k = (bids twoBids ! k)\<lparr>bid_status := Rejected\<rparr>)"
    using v(1) by simp
  from k [of 0] v have "bids financedByFour ! 0 = (bids twoBids ! 0)\<lparr>bid_status := Rejected\<rparr>"
    by simp
  moreover from k [of 1] v have "bid_status (bids financedByFour ! 1) = Accepted"
    by simp
  ultimately show ?thesis using h1 h2 len by simp
qed

section \<open>After the first acceptance\<close>

lemma bills_unchanged_ops:
  "bills (snd (placeBid a bl p t i now s)) = bills s"
  "bills (snd (updateBid a b p t i now s)) = bills s"
  "bills (snd (cancelBid a b s)) = bills s"
  "bills (snd (addFunds a amt s)) = bills s"
  "bills (snd (deleteMe a s)) = bills s"
  by (auto simp: placeBid_def updateBid_def cancelBid_def addFunds_def deleteMe_def createBid_def
      split: option.splits if_splits sum.splits)

lemma sendBill_bills:
  "bills (snd (sendBill a b now s)) = bills s \<or>
   (\<exists>bl0. findBill b s = Some bl0 \<and>
      bills (snd (sendBill a b now s)) =
        bills (saveBill (billPreSave now (status bl0) (bl0\<lparr>status := Sent\<rparr>)) s))"
  unfolding sendBill_def by (simp add: Let_def billSave_def split: option.splits)

lemma payBill_bills:
  "bills (snd (payBill a b now s)) = bills s \<or>
   (\<exists>bl0. findBill b s = Some bl0 \<and>
      bills (snd (payBill a b now s)) =
        bills (saveBill (billPreSave now (status bl0) (bl0\<lparr>status := Paid\<rparr>)) s))"
  unfolding payBill_def by (simp add: Let_def billSave_def split: option.splits)

lemma sendBill_billWrite: "billWrite s (snd (sendBill a b now s))"
  using sendBill_bills [of a b now s]
proof (elim disjE exE conjE)
  assume "bills (snd (sendBill a b now s)) = bills s"
  then show ?thesis by (simp add: billWrite_def)
next
  fix bl0
  assume bl0: "findBill b s = Some bl0"
    and w: "bills (snd (sendBill a b now s)) =
            bills (saveBill (billPreSave now (status bl0) (bl0\<lparr>status := Sent\<rparr>)) s)"
  have "bill_id bl0 = b" using findBill_SomeD [OF bl0] by simp
  with bl0 w show ?thesis
    unfolding billWrite_def
    by (intro disjI2 exI [of _ bl0]
          exI [of _ "billPreSave now (status bl0) (bl0\<lparr>status := Sent\<rparr>)"]) simp
qed

lemma payBill_billWrite: "billWrite s (snd (payBill a b now s))"
  using payBill_bills [of a b now s]
proof (elim disjE exE conjE)
  assume "bills (snd (payBill a b now s)) = bills s"
  then show ?thesis by (simp add: billWrite_def)
next
  fix bl0
  assume bl0: "findBill b s = Some bl0"
    and w: "bills (snd (payBill a b now s)) =
            bills (saveBill (billPreSave now (status bl0) (bl0\<lparr>status := Paid\<rparr>)) s)"
  have "bill_id bl0 = b" using findBill_SomeD [OF bl0] by simp
  with bl0 w show ?thesis
    unfolding billWrite_def
    by (intro disjI2 exI [of _ bl0]
          exI [of _ "billPreSave now (status bl0) (bl0\<lparr>status := Paid\<rparr>)"]) simp
qed

lemma acceptBid_billWrite: "billWrite s (snd (acceptBid a bidId now s))"
proof (cases "\<exists>u b bl. reqUser a s = Some u \<and> findBid bidId s = Some b \<and>
              findBill (bid_bill b) s = Some bl \<and> organization bl = a \<and>
              bid_status b = Pending \<and> now < expiresAt b \<and> financer bl = None")
  case False
  from acceptBid_refused [OF this] show ?thesis by (auto simp: billWrite_def)
next
  case True
  then obtain u b bl where c: "reqUser a s = Some u" "findBid bidId s = Some b"
    "findBill (bid_bill b) s = Some bl" "organization bl = a"
    "bid_status b = Pending" "now < expiresAt b" "financer bl = None" by blast
  have aw: "bills (acceptWrites now bidId b bl s) = bills (saveBill (financedBill now b bl) s)"
    by (simp add: acceptWrites_def saveBill_def)
  show ?thesis
  proof (cases "now < dueDate bl")
    case False
    then have "bills (snd (acceptBid a bidId now s)) = bills s"
      unfolding acceptBid_pass [OF c] by simp
    then show ?thesis by (simp add: billWrite_def)
  next
    case True
    then have w: "bills (snd (acceptBid a bidId now s)) =
        bills (saveBill (financedBill now b bl) s)"
      unfolding acceptBid_pass [OF c]
      by (cases "findUser (bid_financer b) (acceptWrites now bidId b bl s)") (simp_all add: aw)
    have d: "bill_id (financedBill now b bl) = bid_bill b"
      "organization (financedBill now b bl) = organization bl"
      using findBill_SomeD [OF c(3)] by (simp_all add: financedBill_def)
    have "findBill (bill_id (financedBill now b bl)) s = Some bl"
      by (simp add: d c(3))
    moreover have "financer bl \<noteq> None \<longrightarrow> financer (financedBill now b bl) = financer bl"
      by (simp add: c(7))
    ultimately show ?thesis
      unfolding billWrite_def using w d(2) by blast
  qed
qed

lemma step_billWrite: "billWrite s (snd (step r now s))"
proof (cases r)
  case (AcceptBid a b) then show ?thesis by (simp add: acceptBid_billWrite)
next
  case (SendBill a b) then show ?thesis by (simp add: sendBill_billWrite)
next
  case (PayBill a b) then show ?thesis by (simp add: payBill_billWrite)
qed (simp_all add: billWrite_def bills_unchanged_ops)

lemma billWrite_keeps_financer:
  assumes "billWrite s s'" and "findBill i s = Some bl" and "financer bl = Some f"
  shows "\<exists>bl'. findBill i s' = Some bl' \<and> financer bl' = Some f \<and>
               organization bl' = organization bl"
proof -
  have i: "bill_id bl = i" using findBill_SomeD [OF assms(2)] by simp
  from assms(1) consider "bills s' = bills s"
    | bl0 d where "findBill (bill_id d) s = Some bl0" "bills s' = bills (saveBill d s)"
        "organization d = organization bl0" "financer bl0 \<noteq> None \<longrightarrow> financer d = financer bl0"
    unfolding billWrite_def by blast
  then show ?thesis
  proof cases
    case 1
    from findBill_cong [OF 1, of i] assms(2,3) show ?thesis by simp
  next
    case 2
    have "findBill i s' = findBill i (saveBill d s)"
      by (rule findBill_cong [OF 2(2)])
    also have "\<dots> = Some (if bill_id bl = bill_id d then d else bl)"
      by (simp only: findBill_saveBill assms(2) option.map)
    finally have look: "findBill i s' = Some (if bill_id bl = bill_id d then d else bl)" .
    show ?thesis
    proof (cases "bill_id d = i")
      case True
      with 2(1) assms(2) have "bl0 = bl" by simp
      with 2(3,4) assms(3) have "financer d = Some f" "organization d = organization bl"
        by simp_all
      moreover from look True i have "findBill i s' = Some d" by simp
      ultimately show ?thesis by simp
    next
      case False
      with look i have "findBill i s' = Some bl" by auto
      with assms(3) show ?thesis by simp
    qed
  qed
qed

lemma run_keeps_financer:
  assumes "findBill i s = Some bl" and "financer bl = Some f"
  shows "\<exists>bl'. findBill i (run rs s) = Some bl' \<and> financer bl' = Some f \<and>
               organization bl' = organization bl"
  using assms
proof (induction rs arbitrary: s bl)
  case Nil
  then show ?case by simp
next
  case (Cons x rs)
  obtain r now where x: "x = (r, now)" by (cases x)
  from billWrite_keeps_financer [OF step_billWrite Cons.prems]
  obtain bl1 where bl1: "findBill i (snd (step r now s)) = Some bl1" "financer bl1 = Some f"
     "organization bl1 = organization bl" by blast
  from Cons.IH [OF bl1(1,2)] bl1(3) show ?case by (simp add: x)
qed

lemma acceptBid_not_pending:
  assumes "reqUser a s = Some u" "findBid b s = Some bd" "findBill (bid_bill bd) s = Some bl"
    "organization bl = a" "bid_status bd \<noteq> Pending"
  shows "acceptBid a b now s = (Inl InvalidState, s)"
  unfolding acceptBid_def by (simp add: assms)

lemma acceptBid_on_financed:
  assumes "findBid b s = Some bd" "findBill (bid_bill bd) s = Some bl" "financer bl \<noteq> None"
  shows "\<exists>e. acceptBid a b now s = (Inl e, s)"
proof (rule acceptBid_refused)
  show "\<not> (\<exists>u b' bl'. reqUser a s = Some u \<and> findBid b s = Some b' \<and>
              findBill (bid_bill b') s = Some bl' \<and> organization bl' = a \<and>
              bid_status b' = Pending \<and> now < expiresAt b' \<and> financer bl' = None)"
    using assms by auto
qed

lemma acceptWrites_findBill:
  assumes "findBill (bid_bill b) s = Some bl"
  shows "findBill (bid_bill b) (saveUser f (acceptWrites now bidId b bl s)) = Some (financedBill now b bl)"
proof -
  have "bill_id bl = bid_bill b" using findBill_SomeD [OF assms] by simp
  then have "bill_id bl = bill_id (financedBill now b bl)" by (simp add: financedBill_def)
  moreover have "findBill (bid_bill b) (saveUser f (acceptWrites now bidId b bl s)) =
        findBill (bid_bill b) (saveBill (financedBill now b bl) s)"
    by (rule findBill_cong) (simp add: acceptWrites_def saveBill_def)
  ultimately show ?thesis by (simp add: findBill_saveBill assms)
qed

lemma acceptWrites_findBid_other:
  assumes "findBid b1 s = Some bd1" "findBid b2 s = Some bd2" "b2 \<noteq> b1"
    "bid_bill bd2 = bid_bill bd1" "bid_status bd2 = Pending"
  shows "findBid b2 (saveUser f (acceptWrites now b1 bd1 bl s)) = Some (bd2\<lparr>bid_status := Rejected\<rparr>)"
proof -
  have ids: "bid_id bd1 = b1" "bid_id bd2 = b2"
    using findBid_SomeD [OF assms(1)] findBid_SomeD [OF assms(2)] by simp_all
  have acc: "bid_id (acceptedBid now bd1) = b1" by (simp add: acceptedBid_def ids)
  have "findBid b2 (saveBid (acceptedBid now bd1) s) = Some bd2"
    by (simp add: findBid_saveBid assms(2) acc ids assms(3))
  then have "findBid b2 (saveBill (financedBill now bd1 bl) (saveBid (acceptedBid now bd1) s)) = Some bd2"
    by (simp add: findBid_cong [of "saveBill (financedBill now bd1 bl) (saveBid (acceptedBid now bd1) s)"
          "saveBid (acceptedBid now bd1) s"])
  then have "findBid b2 (acceptWrites now b1 bd1 bl s) = Some (bd2\<lparr>bid_status := Rejected\<rparr>)"
    by (simp add: acceptWrites_def findBid_rejectOthers assms(3,4,5) ids)
  moreover have "findBid b2 (saveUser f (acceptWrites now b1 bd1 bl s)) = findBid b2 (acceptWrites now b1 bd1 bl s)"
    by (rule findBid_cong) simp
  ultimately show ?thesis by simp
qed

text \<open>
  Claim C1, as amended. After a successful acceptance of bid \<open>b1\<close>: a second
  acceptance by the owner of any other bid of that bill that was pending at the
  first acceptance is refused with the invalid-state error ("Bid is no longer
  available": the first acceptance rejected that bid, and the status check comes
  before the financer check) and changes nothing; the bill keeps the winning
  financer through every later run of requests; and in every later state every
  acceptance of a bid of that bill, by anyone, is refused without effect.
\<close>

theorem second_accept_refused:
  assumes "acceptBid actor b1 now s = (Inr (), s')" and "findBid b1 s = Some bd1"
  shows "(\<forall>b2 bd2 now'. findBid b2 s = Some bd2 \<and> b2 \<noteq> b1 \<and> bid_bill bd2 = bid_bill bd1 \<and>
            bid_status bd2 = Pending \<longrightarrow>
            acceptBid actor b2 now' s' = (Inl InvalidState, s')) \<and>
         (\<forall>rs. \<exists>bl. findBill (bid_bill bd1) (run rs s') = Some bl \<and>
            financer bl = Some (bid_financer bd1)) \<and>
         (\<forall>rs a b now' bd. findBid b (run rs s') = Some bd \<and> bid_bill bd = bid_bill bd1 \<longrightarrow>
            (\<exists>e. acceptBid a b now' (run rs s') = (Inl e, run rs s')))"
proof -
  from acceptBid_InrD [OF assms(1)] assms(2) obtain bl f u where
    c: "reqUser actor s = Some u" "findBill (bid_bill bd1) s = Some bl" "organization bl = actor"
      "findUser (bid_financer bd1) (acceptWrites now b1 bd1 bl s) = Some f"
      "s' = saveUser (debited bd1 f) (acceptWrites now b1 bd1 bl s)"
    by auto
  have bill': "findBill (bid_bill bd1) s' = Some (financedBill now bd1 bl)"
    unfolding c(5) by (rule acceptWrites_findBill [OF c(2)])
  have fin: "financer (financedBill now bd1 bl) = Some (bid_financer bd1)"
    "organization (financedBill now bd1 bl) = actor"
    using c(3) by (simp_all add: financedBill_def)
  have "active f" using findUser_SomeD [OF c(4)] by simp
  then have act: "active (debited bd1 f)" by (simp add: debited_def)
  have "findUser actor (acceptWrites now b1 bd1 bl s) = findUser actor s"
    by (rule findUser_cong) (simp add: acceptWrites_def)
  with c(1) have "findUser actor (acceptWrites now b1 bd1 bl s) \<noteq> None"
    by (simp add: reqUser_def)
  from findUser_saveUser_keeps [OF this act] obtain u' where u': "reqUser actor s' = Some u'"
    by (auto simp: reqUser_def c(5))
  have first: "acceptBid actor b2 now' s' = (Inl InvalidState, s')"
    if h: "findBid b2 s = Some bd2" "b2 \<noteq> b1" "bid_bill bd2 = bid_bill bd1" "bid_status bd2 = Pending"
    for b2 bd2 now'
  proof -
    have look: "findBid b2 s' = Some (bd2\<lparr>bid_status := Rejected\<rparr>)"
      unfolding c(5) by (rule acceptWrites_findBid_other [OF assms(2) h])
    have b: "findBill (bid_bill (bd2\<lparr>bid_status := Rejected\<rparr>)) s' =
        Some (financedBill now bd1 bl)"
      by (simp add: h(3) bill')
    show ?thesis
      by (rule acceptBid_not_pending [OF u' look b]) (simp_all add: fin)
  qed
  have second: "\<exists>bl'. findBill (bid_bill bd1) (run rs s') = Some bl' \<and>
      financer bl' = Some (bid_financer bd1)" for rs
    using run_keeps_financer [OF bill' fin(1), of rs] by blast
  have third: "\<exists>e. acceptBid a b now' (run rs s') = (Inl e, run rs s')"
    if h: "findBid b (run rs s') = Some bd" "bid_bill bd = bid_bill bd1" for rs a b now' bd
  proof -
    from second [of rs] obtain bl' where
      "findBill (bid_bill bd) (run rs s') = Some bl'" "financer bl' \<noteq> None"
      by (auto simp: h(2))
    from acceptBid_on_financed [OF h(1) this] show ?thesis .
  qed
  from first second third show ?thesis by blast
qed

text \<open>The theorem at work: bid 2 of financer 4 won bill 10, bid 1 is then refused.\<close>

theorem second_accept_refused_witness:
  "acceptBid 1 2 3000 twoBids = (Inr (), financedByFour) \<and>
   acceptBid 1 1 4000 financedByFour = (Inl InvalidState, financedByFour) \<and>
   (\<exists>bl. findBill 10 (run [(PayBill 2 10, 5000)] financedByFour) = Some bl \<and>
      financer bl = Some 4)"
proof -
  have h1: "acceptBid 1 2 3000 twoBids = (Inr (), financedByFour)"
    by (simp add: financedByFour_def prod_eq_iff scenario_defs)
  have h2: "findBid 2 twoBids = Some (bids twoBids ! 1)"
    by (simp add: scenario_defs)
  have h3: "findBid 1 twoBids = Some (bids twoBids ! 0)"
    by (simp add: scenario_defs)
  have v: "bid_bill (bids twoBids ! 1) = 10" "bid_financer (bids twoBids ! 1) = 4"
    "bid_bill (bids twoBids ! 0) = 10" "bid_status (bids twoBids ! 0) = Pending"
    by (simp_all add: scenario_defs)
  note t = second_accept_refused [OF h1 h2]
  from t have "acceptBid 1 1 4000 financedByFour = (Inl InvalidState, financedByFour)"
    using h3 v by (simp del: One_nat_def)
  moreover from t have "\<exists>bl. findBill 10 (run [(PayBill 2 10, 5000)] financedByFour) = Some bl \<and>
      financer bl = Some 4"
    using v by metis
  ultimately show ?thesis using h1 by blast
qed

text \<open>
  Claim C1 as stated fails: the second acceptance is refused, but not with the
  already-financed error.
\<close>

theorem second_accept_not_AlreadyFinanced:
  "fst (acceptBid 1 2 3000 twoBids) = Inr () \<and>
   map bid_status (bids twoBids) = [Pending, Pending] \<and>
   map_option financer (findBill 10 financedByFour) = Some (Some 4) \<and>
   acceptBid 1 1 4000 financedByFour = (Inl InvalidState, financedByFour) \<and>
   fst (acceptBid 1 1 4000 financedByFour) \<noteq> Inl AlreadyFinanced"
  by (simp add: financedByFour_def scenario_defs)

section \<open>Sending a bill\<close>







section \<open>Overdue bills on the read paths\<close>

lemma getMarketplaceBills_empty:
  "getMarketplaceBills a now s = Inr bs \<Longrightarrow> bs = []"
  by (auto simp: getMarketplaceBills_def financerFieldAbsent_def split: option.splits if_splits)

lemma placeBid_stale_sent:
  assumes "reqUser a s = Some u" "role u = Financer" "findBill billId s = Some bl"
    "isInMarketplace bl" "status bl = Sent" "financer bl = None" "dueDate bl \<le> now"
  shows "placeBid a billId p t i now s = (Inl InvalidState, s)"
  unfolding placeBid_def using assms(7) by (simp add: assms(1-6))

text \<open>
  Claim C7, as amended. For a bill stored as sent whose due date has passed: the
  marketplace listing leaves it out (its financer filter matches no stored bill),
  and a financer's bid on it, if it is in the marketplace and not financed, is
  refused without effect by the overdue check. The status listing, however, goes by
  the stored status: the bill is never listed under overdue, and its organization
  finds it under sent.
\<close>

theorem stale_sent_bill_reads:
  assumes "bl \<in> set (bills s)" and "status bl = Sent" and "dueDate bl < now"
  shows "(\<forall>a bs. getMarketplaceBills a now s = Inr bs \<longrightarrow> bl \<notin> set bs) \<and>
         (\<forall>a u p t i. reqUser a s = Some u \<and> role u = Financer \<and>
            findBill (bill_id bl) s = Some bl \<and> isInMarketplace bl \<and> financer bl = None \<longrightarrow>
            placeBid a (bill_id bl) p t i now s = (Inl InvalidState, s)) \<and>
         (\<forall>a bs. getBillsByStatus a Overdue s = Inr bs \<longrightarrow> bl \<notin> set bs) \<and>
         (\<forall>a u. reqUser a s = Some u \<and> role u = Organization \<and> organization bl = a \<longrightarrow>
            (\<exists>bs. getBillsByStatus a Sent s = Inr bs \<and> bl \<in> set bs))"
proof (intro conjI allI impI)
  fix a bs assume "getMarketplaceBills a now s = Inr bs"
  from getMarketplaceBills_empty [OF this] show "bl \<notin> set bs" by simp
next
  fix a u p t i
  assume h: "reqUser a s = Some u \<and> role u = Financer \<and>
            findBill (bill_id bl) s = Some bl \<and> isInMarketplace bl \<and> financer bl = None"
  have "dueDate bl \<le> now" using assms(3) by simp
  with h assms(2) show "placeBid a (bill_id bl) p t i now s = (Inl InvalidState, s)"
    using placeBid_stale_sent [of a s u "bill_id bl" bl now p t i] by blast
next
  fix a bs assume "getBillsByStatus a Overdue s = Inr bs"
  then show "bl \<notin> set bs"
    using assms(2) by (auto simp: getBillsByStatus_def split: option.splits)
next
  fix a u assume "reqUser a s = Some u \<and> role u = Organization \<and> organization bl = a"
  then show "\<exists>bs. getBillsByStatus a Sent s = Inr bs \<and> bl \<in> set bs"
    using assms(1,2) by (simp add: getBillsByStatus_def)
qed

text \<open>
  The theorem at work on bill 10 of the marketplace, stored as sent and read after
  its due date (time 2000000000).
\<close>

theorem stale_sent_bill_reads_witness:
  "bills market ! 0 \<in> set (bills market) \<and> status (bills market ! 0) = Sent \<and>
   dueDate (bills market ! 0) < 2000000000 \<and>
   getMarketplaceBills 3 2000000000 market = Inr [] \<and>
   placeBid 3 10 (Some 40) None None 2000000000 market = (Inl InvalidState, market) \<and>
   (\<exists>bs. getBillsByStatus 1 Sent market = Inr bs \<and> bills market ! 0 \<in> set bs)"
proof -
  have h: "bills market ! 0 \<in> set (bills market)" "status (bills market ! 0) = Sent"
    "dueDate (bills market ! 0) < 2000000000"
    by (simp_all add: market_eq fixture_defs)
  have v: "findBill (bill_id (bills market ! 0)) market = Some (bills market ! 0)"
    "bill_id (bills market ! 0) = 10"
    "reqUser 1 market = Some ((newUser 1 Organization)\<lparr>totalBillsSent := 2\<rparr>)"
    "organization (bills market ! 0) = 1"
    "reqUser 3 market = Some ((newUser 3 Financer)\<lparr>availableFunds := 5000\<rparr>)"
    "isInMarketplace (bills market ! 0)" "financer (bills market ! 0) = None"
    by (simp_all add: market_eq fixture_defs store_defs)
  have m: "getMarketplaceBills 3 2000000000 market = Inr []"
    by (simp add: getMarketplaceBills_def market_eq fixture_defs store_defs)
  note t = stale_sent_bill_reads [OF h]
  from t v(1,5,6,7)
  have "placeBid 3 (bill_id (bills market ! 0)) (Some 40) None None 2000000000 market
          = (Inl InvalidState, market)"
    by (simp add: newUser_def)
  then have p: "placeBid 3 10 (Some 40) None None 2000000000 market = (Inl InvalidState, market)"
    by (simp only: v(2))
  from t v(3,4) have "\<exists>bs. getBillsByStatus 1 Sent market = Inr bs \<and> bills market ! 0 \<in> set bs"
    by (simp add: newUser_def)
  with h m p show ?thesis by simp
qed

text \<open>
  Claim C7 as stated fails: both bills are stored as sent and due at 1000000000;
  whatever the time of the request, the status listing reports them under sent and
  reports nothing under overdue.
\<close>

theorem getBillsByStatus_reports_stored_status:
  "map bill_id (bills market) = [10, 11] \<and>
   map status (bills market) = [Sent, Sent] \<and>
   map dueDate (bills market) = [1000000000, 1000000000] \<and>
   (1000000000 :: int) < 2000000000 \<and>
   getBillsByStatus 1 Sent market = Inr (bills market) \<and>
   getBillsByStatus 1 Overdue market = Inr []"
  by (simp add: getBillsByStatus_def market_eq fixture_defs store_defs)

section \<open>Expired bids\<close>

lemma updateBid_expired:
  assumes "findBid bidId s = Some b" "expiresAt b \<le> now"
  shows "\<exists>e. updateBid a bidId p t i now s = (Inl e, s)"
  unfolding updateBid_def using assms by (simp split: option.splits)

lemma acceptBid_expired:
  assumes "findBid bidId s = Some b" "expiresAt b \<le> now"
  shows "\<exists>e. acceptBid a bidId now s = (Inl e, s)"
proof (rule acceptBid_refused)
  show "\<not> (\<exists>u b' bl'. reqUser a s = Some u \<and> findBid bidId s = Some b' \<and>
              findBill (bid_bill b') s = Some bl' \<and> organization bl' = a \<and>
              bid_status b' = Pending \<and> now < expiresAt b' \<and> financer bl' = None)"
    using assms by auto
qed

lemma cancelBid_succeeds_iff:
  assumes "findBid bidId s = Some b"
  shows "fst (cancelBid a bidId s) = Inr () \<longleftrightarrow>
           reqUser a s \<noteq> None \<and> bid_financer b = a \<and> bid_status b = Pending"
  unfolding cancelBid_def using assms by (simp split: option.splits)

text \<open>
  Claim C8, as amended. For a bid whose expiry time has been reached: Update and
  Accept are refused without effect, with the expired error whenever the checks
  before the expiry check pass, also when the stored status is still pending.
  Cancel does not look at the expiry time: it succeeds exactly when the actor is
  the bid's financer and the stored status is pending.
\<close>

theorem expired_bid_requests:
  assumes "findBid bidId s = Some b" and "expiresAt b \<le> now"
  shows "(\<exists>e. updateBid a bidId p t i now s = (Inl e, s)) \<and>
         (reqUser a s \<noteq> None \<and> bid_financer b = a \<and> bid_status b = Pending \<longrightarrow>
            updateBid a bidId p t i now s = (Inl error.Expired, s)) \<and>
         (\<exists>e. acceptBid a bidId now s = (Inl e, s)) \<and>
         (\<forall>bl. reqUser a s \<noteq> None \<and> findBill (bid_bill b) s = Some bl \<and> organization bl = a \<and>
               bid_status b = Pending \<longrightarrow>
            acceptBid a bidId now s = (Inl error.Expired, s)) \<and>
         (fst (cancelBid a bidId s) = Inr () \<longleftrightarrow>
            reqUser a s \<noteq> None \<and> bid_financer b = a \<and> bid_status b = Pending)"
proof (intro conjI impI allI)
  show "\<exists>e. updateBid a bidId p t i now s = (Inl e, s)"
    by (rule updateBid_expired [OF assms])
next
  assume "reqUser a s \<noteq> None \<and> bid_financer b = a \<and> bid_status b = Pending"
  then show "updateBid a bidId p t i now s = (Inl error.Expired, s)"
    unfolding updateBid_def using assms by auto
next
  show "\<exists>e. acceptBid a bidId now s = (Inl e, s)"
    by (rule acceptBid_expired [OF assms])
next
  fix bl
  assume "reqUser a s \<noteq> None \<and> findBill (bid_bill b) s = Some bl \<and> organization bl = a \<and>
               bid_status b = Pending"
  then show "acceptBid a bidId now s = (Inl error.Expired, s)"
    unfolding acceptBid_def using assms by auto
next
  show "fst (cancelBid a bidId s) = Inr () \<longleftrightarrow>
            reqUser a s \<noteq> None \<and> bid_financer b = a \<and> bid_status b = Pending"
    by (rule cancelBid_succeeds_iff [OF assms(1)])
qed

text \<open>
  The theorem at work on bid 1 (expiring at 86402000), at time 90000000.
\<close>

theorem expired_bid_requests_witness:
  "findBid 1 oneBid = Some (bids oneBid ! 0) \<and> expiresAt (bids oneBid ! 0) \<le> 90000000 \<and>
   bid_status (bids oneBid ! 0) = Pending \<and>
   updateBid 3 1 (Some 50) None None 90000000 oneBid = (Inl error.Expired, oneBid) \<and>
   acceptBid 1 1 90000000 oneBid = (Inl error.Expired, oneBid)"
proof -
  have h: "findBid 1 oneBid = Some (bids oneBid ! 0)" "expiresAt (bids oneBid ! 0) \<le> 90000000"
    by (simp_all add: scenario_defs)
  have v: "reqUser 3 oneBid \<noteq> None" "reqUser 1 oneBid \<noteq> None"
    "bid_financer (bids oneBid ! 0) = 3" "bid_status (bids oneBid ! 0) = Pending"
    "findBill (bid_bill (bids oneBid ! 0)) oneBid = Some (bills oneBid ! 0)"
    "organization (bills oneBid ! 0) = 1"
    by (simp_all add: scenario_defs)
  from expired_bid_requests [OF h, of 3 "Some 50" None None] v
  have "updateBid 3 1 (Some 50) None None 90000000 oneBid = (Inl error.Expired, oneBid)"
    by blast
  moreover from expired_bid_requests [OF h, of 1 None None None] v
  have "acceptBid 1 1 90000000 oneBid = (Inl error.Expired, oneBid)"
    by blast
  ultimately show ?thesis using h v(4) by simp
qed

text \<open>
  Claim C8 as stated fails for Cancel: at time 90000000 the financer cancels the
  expired bid 1, and the bid is deleted.
\<close>

theorem cancelBid_ignores_expiry:
  "map bid_status (bids oneBid) = [Pending] \<and> map expiresAt (bids oneBid) = [86402000] \<and>
   (86402000 :: int) < 90000000 \<and>
   fst (step (CancelBid 3 1) 90000000 oneBid) = Inr () \<and>
   bids (snd (step (CancelBid 3 1) 90000000 oneBid)) = []"
  by (simp add: scenario_defs)

section \<open>The duplicate-bid guard\<close>

lemma find_unique:
  "distinct (map g xs) \<Longrightarrow> b \<in> set xs \<Longrightarrow> find (\<lambda>x. g x = g b) xs = Some b"
  by (induction xs) (auto simp: image_iff)

lemma findBid_unique:
  assumes "uniqueBidIds s" "b \<in> set (bids s)"
  shows "findBid (bid_id b) s = Some b"
  using assms unfolding uniqueBidIds_def findBid_def by (rule find_unique)

lemma bids_unchanged_ops:
  "bids (snd (sendBill a b now s)) = bids s"
  "bids (snd (payBill a b now s)) = bids s"
  "bids (snd (addFunds a amt s)) = bids s"
  "bids (snd (deleteMe a s)) = bids s"
  unfolding sendBill_def payBill_def addFunds_def deleteMe_def
  by (simp_all add: Let_def billSave_def split: option.splits)

lemma placeBid_bids: "bids (snd (placeBid a bl p t i now s)) = bids s"
  using placeBid_never_stores [of a bl p t i now s] by auto

lemma updateBid_bids_explicit:
  "bids (snd (updateBid a i p t intr now s)) = bids s \<or>
   (\<exists>b0. findBid i s = Some b0 \<and> bid_status b0 = Pending \<and>
      bids (snd (updateBid a i p t intr now s)) =
        bids (saveBid (b0\<lparr>bid_financingPercentage :=
                             (case p of None \<Rightarrow> bid_financingPercentage b0 | Some q \<Rightarrow> q),
                           terms := (case t of None \<Rightarrow> terms b0 | Some x \<Rightarrow> Some x),
                           interest := (case intr of None \<Rightarrow> interest b0 | Some x \<Rightarrow> x)\<rparr>) s))"
  unfolding updateBid_def
  by (simp split: option.splits)

lemma updateBid_bids:
  "bids (snd (updateBid a i p t intr now s)) = bids s \<or>
   (\<exists>b0 d. findBid i s = Some b0 \<and> bid_status b0 = Pending \<and> bid_id d = bid_id b0 \<and>
      bid_bill d = bid_bill b0 \<and> bid_financer d = bid_financer b0 \<and>
      bids (snd (updateBid a i p t intr now s)) = bids (saveBid d s))"
  using updateBid_bids_explicit [of a i p t intr now s]
proof (elim disjE exE conjE)
  assume "bids (snd (updateBid a i p t intr now s)) = bids s"
  then show ?thesis by simp
next
  fix b0 :: bid
  let ?d = "b0\<lparr>bid_financingPercentage :=
                             (case p of None \<Rightarrow> bid_financingPercentage b0 | Some q \<Rightarrow> q),
                           terms := (case t of None \<Rightarrow> terms b0 | Some x \<Rightarrow> Some x),
                           interest := (case intr of None \<Rightarrow> interest b0 | Some x \<Rightarrow> x)\<rparr>"
  assume h: "findBid i s = Some b0" "bid_status b0 = Pending"
    "bids (snd (updateBid a i p t intr now s)) = bids (saveBid ?d s)"
  have "bid_id ?d = bid_id b0 \<and> bid_bill ?d = bid_bill b0 \<and> bid_financer ?d = bid_financer b0"
    by simp
  with h show ?thesis by blast
qed

lemma cancelBid_bids:
  "bids (snd (cancelBid a i s)) = bids s \<or>
   (\<exists>b0. findBid i s = Some b0 \<and> bid_financer b0 = a \<and> bid_status b0 = Pending \<and>
      bids (snd (cancelBid a i s)) = filter (\<lambda>x. bid_id x \<noteq> i) (bids s))"
  unfolding cancelBid_def
  by (simp split: option.splits)

lemma acceptBid_bids:
  "bids (snd (acceptBid a i now s)) = bids s \<or>
   (\<exists>b0. findBid i s = Some b0 \<and> bid_status b0 = Pending \<and>
      bids (snd (acceptBid a i now s)) = bids (saveBid (acceptedBid now b0) s)) \<or>
   (\<exists>b0 bl. findBid i s = Some b0 \<and> bid_status b0 = Pending \<and>
      bids (snd (acceptBid a i now s)) = bids (acceptWrites now i b0 bl s))"
proof (cases "\<exists>u b bl. reqUser a s = Some u \<and> findBid i s = Some b \<and>
              findBill (bid_bill b) s = Some bl \<and> organization bl = a \<and>
              bid_status b = Pending \<and> now < expiresAt b \<and> financer bl = None")
  case False
  from acceptBid_refused [OF this] show ?thesis by auto
next
  case True
  then obtain u b bl where c: "reqUser a s = Some u" "findBid i s = Some b"
    "findBill (bid_bill b) s = Some bl" "organization bl = a"
    "bid_status b = Pending" "now < expiresAt b" "financer bl = None" by blast
  show ?thesis
  proof (cases "now < dueDate bl")
    case False
    then have "bids (snd (acceptBid a i now s)) = bids (saveBid (acceptedBid now b) s)"
      unfolding acceptBid_pass [OF c] by simp
    with c(2,5) show ?thesis by blast
  next
    case True
    then have "bids (snd (acceptBid a i now s)) = bids (acceptWrites now i b bl s)"
      unfolding acceptBid_pass [OF c]
      by (cases "findUser (bid_financer b) (acceptWrites now i b bl s)") simp_all
    with c(2,5) show ?thesis by blast
  qed
qed

lemma saveBid_rewrite:
  assumes "uniqueBidIds s" "findBid i s = Some b0" "bid_status b0 = Pending"
    "bid_id d = bid_id b0" "bid_bill d = bid_bill b0" "bid_financer d = bid_financer b0"
  shows "bidRewrite s (\<lambda>x. if bid_id x = bid_id d then d else x)"
  unfolding bidRewrite_def
proof
  fix x assume x: "x \<in> set (bids s)"
  have i: "bid_id b0 = i" using findBid_SomeD [OF assms(2)] by simp
  show "bid_id (if bid_id x = bid_id d then d else x) = bid_id x \<and>
        bid_bill (if bid_id x = bid_id d then d else x) = bid_bill x \<and>
        bid_financer (if bid_id x = bid_id d then d else x) = bid_financer x \<and>
        (bid_status x \<noteq> Pending \<longrightarrow> (if bid_id x = bid_id d then d else x) = x)"
  proof (cases "bid_id x = bid_id d")
    case True
    with findBid_unique [OF assms(1) x] assms(2,4) i have "x = b0" by simp
    with True assms(3-6) show ?thesis by simp
  next
    case False
    then show ?thesis by simp
  qed
qed

lemma reject_rewrite:
  "bidRewrite s (\<lambda>b. if bid_bill b = bl \<and> bid_status b = Pending \<and> bid_id b \<noteq> j
                      then b\<lparr>bid_status := Rejected\<rparr> else b)"
  unfolding bidRewrite_def by simp

lemma acceptWrites_rewrite:
  assumes "uniqueBidIds s" "findBid i s = Some b0" "bid_status b0 = Pending"
  shows "\<exists>f. bids (acceptWrites now i b0 bl s) = map f (bids s) \<and> bidRewrite s f"
proof -
  let ?h = "\<lambda>x. if bid_id x = bid_id (acceptedBid now b0) then acceptedBid now b0 else x"
  let ?g = "\<lambda>b. if bid_bill b = bid_bill b0 \<and> bid_status b = Pending \<and> bid_id b \<noteq> i
                  then b\<lparr>bid_status := Rejected\<rparr> else b"
  have acc: "bid_id (acceptedBid now b0) = bid_id b0" "bid_bill (acceptedBid now b0) = bid_bill b0"
    "bid_financer (acceptedBid now b0) = bid_financer b0"
    "bid_status (acceptedBid now b0) = Accepted"
    by (simp_all add: acceptedBid_def)
  have h: "bidRewrite s ?h"
    by (rule saveBid_rewrite [OF assms]) (simp_all add: acc)
  have eq: "bids (acceptWrites now i b0 bl s) = map (?g \<circ> ?h) (bids s)"
    by (simp add: acceptWrites_def rejectOthers_def saveBid_def saveBill_def)
  have "bidRewrite s (?g \<circ> ?h)"
    unfolding bidRewrite_def
  proof
    fix x assume x: "x \<in> set (bids s)"
    from h x have hx: "bid_id (?h x) = bid_id x" "bid_bill (?h x) = bid_bill x"
      "bid_financer (?h x) = bid_financer x" "bid_status x \<noteq> Pending \<longrightarrow> ?h x = x"
      unfolding bidRewrite_def by blast+
    have g: "bid_id (?g y) = bid_id y" "bid_bill (?g y) = bid_bill y"
      "bid_financer (?g y) = bid_financer y" "bid_status y \<noteq> Pending \<longrightarrow> ?g y = y" for y
      by simp_all
    show "bid_id ((?g \<circ> ?h) x) = bid_id x \<and> bid_bill ((?g \<circ> ?h) x) = bid_bill x \<and>
          bid_financer ((?g \<circ> ?h) x) = bid_financer x \<and>
          (bid_status x \<noteq> Pending \<longrightarrow> (?g \<circ> ?h) x = x)"
      unfolding o_def using hx g [of "?h x"] by metis
  qed
  with eq show ?thesis by blast
qed

lemma step_bids:
  assumes "uniqueBidIds s"
  shows "(\<exists>f. bids (snd (step r now s)) = map f (bids s) \<and> bidRewrite s f) \<or>
         (\<exists>a i b0. r = CancelBid a i \<and> findBid i s = Some b0 \<and> bid_financer b0 = a \<and>
            bid_status b0 = Pending \<and>
            bids (snd (step r now s)) = filter (\<lambda>x. bid_id x \<noteq> i) (bids s))"
proof -
  have same: "bids s' = bids s \<Longrightarrow> \<exists>f. bids s' = map f (bids s) \<and> bidRewrite s f" for s'
    by (rule exI [of _ "\<lambda>x. x"]) (simp add: bidRewrite_def)
  show ?thesis
  proof (cases r)
    case (PlaceBid a bl p t i)
    with same [of "snd (step r now s)"] show ?thesis by (simp add: placeBid_bids)
  next
    case (UpdateBid a i p t intr)
    from updateBid_bids [of a i p t intr now s] show ?thesis
    proof (elim disjE exE conjE)
      assume "bids (snd (updateBid a i p t intr now s)) = bids s"
      from same [OF this] UpdateBid show ?thesis by simp
    next
      fix b0 d
      assume h: "findBid i s = Some b0" "bid_status b0 = Pending" "bid_id d = bid_id b0"
        "bid_bill d = bid_bill b0" "bid_financer d = bid_financer b0"
        "bids (snd (updateBid a i p t intr now s)) = bids (saveBid d s)"
      have "bids (snd (step r now s)) = map (\<lambda>x. if bid_id x = bid_id d then d else x) (bids s)"
        using h(6) UpdateBid by (simp add: saveBid_def)
      with saveBid_rewrite [OF assms h(1-5)] show ?thesis
        by blast
    qed
  next
    case (AcceptBid a i)
    from acceptBid_bids [of a i now s] show ?thesis
    proof (elim disjE exE conjE)
      assume "bids (snd (acceptBid a i now s)) = bids s"
      from same [OF this] AcceptBid show ?thesis by simp
    next
      fix b0
      assume h: "findBid i s = Some b0" "bid_status b0 = Pending"
        "bids (snd (acceptBid a i now s)) = bids (saveBid (acceptedBid now b0) s)"
      have acc: "bid_id (acceptedBid now b0) = bid_id b0"
        "bid_bill (acceptedBid now b0) = bid_bill b0"
        "bid_financer (acceptedBid now b0) = bid_financer b0"
        by (simp_all add: acceptedBid_def)
      have "bids (snd (step r now s)) =
          map (\<lambda>x. if bid_id x = bid_id (acceptedBid now b0) then acceptedBid now b0 else x)
            (bids s)"
        using h(3) AcceptBid by (simp add: saveBid_def)
      with saveBid_rewrite [OF assms h(1,2) acc] show ?thesis
        by blast
    next
      fix b0 bl
      assume h: "findBid i s = Some b0" "bid_status b0 = Pending"
        "bids (snd (acceptBid a i now s)) = bids (acceptWrites now i b0 bl s)"
      have "bids (snd (step r now s)) = bids (acceptWrites now i b0 bl s)"
        using h(3) AcceptBid by simp
      with acceptWrites_rewrite [OF assms h(1,2), of now bl] show ?thesis
        by auto
    qed
  next
    case (CancelBid a i)
    with cancelBid_bids [of a i s] same show ?thesis by auto
  next
    case (SendBill a b)
    with same [of "snd (step r now s)"] show ?thesis by (simp add: bids_unchanged_ops)
  next
    case (PayBill a b)
    with same [of "snd (step r now s)"] show ?thesis by (simp add: bids_unchanged_ops)
  next
    case (AddFunds a amt)
    with same [of "snd (step r now s)"] show ?thesis by (simp add: bids_unchanged_ops)
  next
    case (DeleteMe a)
    with same [of "snd (step r now s)"] show ?thesis by (simp add: bids_unchanged_ops)
  qed
qed

lemma bidRewrite_ids:
  assumes "bidRewrite s f"
  shows "map bid_id (map f (bids s)) = map bid_id (bids s)"
  using assms unfolding bidRewrite_def by simp

lemma step_unique:
  assumes "uniqueBidIds s"
  shows "uniqueBidIds (snd (step r now s))"
  using step_bids [OF assms, of r now]
proof (elim disjE exE conjE)
  fix f assume "bids (snd (step r now s)) = map f (bids s)" "bidRewrite s f"
  then have "map bid_id (bids (snd (step r now s))) = map bid_id (bids s)"
    using bidRewrite_ids [of s f] by (simp only:)
  with assms show ?thesis by (simp only: uniqueBidIds_def)
next
  fix a i b0
  assume "bids (snd (step r now s)) = filter (\<lambda>x. bid_id x \<noteq> i) (bids s)"
  with assms show ?thesis by (simp add: uniqueBidIds_def distinct_map_filter)
qed


lemma run_unique: "uniqueBidIds s \<Longrightarrow> uniqueBidIds (run rs s)"
proof (induction rs arbitrary: s)
  case Nil
  then show ?case by simp
next
  case (Cons x rs)
  obtain r now where x: "x = (r, now)" by (cases x)
  from Cons.IH [OF step_unique [OF Cons.prems, of r now]] show ?case by (simp add: x)
qed









section \<open>Stores without pending bids\<close>







subsection \<open>Financed amounts\<close>






subsection \<open>Available funds\<close>

lemma fundsNonNegative_cong: "users s' = users s \<Longrightarrow> fundsNonNegative s' = fundsNonNegative s"
  by (simp add: fundsNonNegative_def)











end
